theory Spec2Isabelle
  imports Complex_Main "HOL-Library.Multiset"
begin

section \<open>The Skyjo game-state engine of \<^verbatim>\<open>src/src/SkyjoApp.tsx\<close>\<close>

text \<open>
  The component keeps the game in React state variables and changes them in event
  handlers. A handler reads the variables of the render it was created in and queues
  updates; the next handler runs after they are applied. Each handler is therefore a
  function from the state before the event to the state after it. Within one handler
  every plain read (\<^verbatim>\<open>players\<close>, \<^verbatim>\<open>currentPlayer\<close>, ...) sees the state before the
  event, also when it follows a \<^verbatim>\<open>setPlayers\<close> call; an updater function
  (\<^verbatim>\<open>setPlayers((prev) => ...)\<close>) receives that same state and runs once, as in a
  production build (in development \<^verbatim>\<open>React.StrictMode\<close> may run an updater twice, which is
  not modelled).

  The display string \<^verbatim>\<open>message\<close> is not part of the engine state and is left out; the
  reads \<^verbatim>\<open>players[i].name\<close> that build it are kept, since they throw when \<^verbatim>\<open>players[i]\<close>
  is undefined. An uncaught \<^verbatim>\<open>TypeError\<close> is the result \<open>Inl TypeError\<close>: the model says
  nothing about the state after one.
\<close>

subsection \<open>Data\<close>

text \<open>
  \<^verbatim>\<open>interface CardT { id: string; value: number; faceUp: boolean }\<close>. The spread of
  \<^verbatim>\<open>undefined\<close> with a face (\<^verbatim>\<open>{ ...undefined, faceUp: true }\<close>) is an object that has
  neither \<^verbatim>\<open>id\<close> nor \<^verbatim>\<open>value\<close>, so both fields are optional here.
\<close>

record CardT =
  card_id :: "string option"
  card_value :: "int option"
  faceUp :: bool

text \<open>
  An element of a JavaScript array of cards: a hole (an index below \<^verbatim>\<open>length\<close> that was
  never written), \<^verbatim>\<open>undefined\<close>, or a card object.
\<close>

datatype slot = Hole | Undefined | Obj CardT

record PlayerT =
  player_id :: nat
  name :: string
  cards :: "slot list"

datatype phase = Start | Reveal | Play

datatype error = TypeError

record game =
  phase :: phase
  playerCount :: nat
  players :: "PlayerT list"
  deck :: "CardT list"
  discard :: "CardT list"
  currentPlayer :: int
  revealTargets :: "nat \<rightharpoonup> nat"
  drawnCard :: "CardT option"

subsection \<open>JavaScript arrays\<close>

text \<open>\<^verbatim>\<open>[...arr]\<close>: the copy has \<^verbatim>\<open>undefined\<close> where the array has a hole.\<close>

definition spread :: "slot list \<Rightarrow> slot list" where
  "spread a = map (\<lambda>x. case x of Hole \<Rightarrow> Undefined | Undefined \<Rightarrow> Undefined | Obj c \<Rightarrow> Obj c) a"

text \<open>
  \<^verbatim>\<open>arr[i]\<close> for a number \<open>i\<close>: \<^verbatim>\<open>undefined\<close> outside the array and at a hole. A negative
  index names a property that no array of the program keeps (every write goes to a
  fresh copy, and a copy keeps the elements only).
\<close>

definition arr_get :: "slot list \<Rightarrow> int \<Rightarrow> slot" where
  "arr_get a i =
     (if i < 0 then Undefined
      else if nat i < length a then (case a ! nat i of Hole \<Rightarrow> Undefined | Undefined \<Rightarrow> Undefined | Obj c \<Rightarrow> Obj c)
      else Undefined)"

text \<open>
  \<^verbatim>\<open>arr[i] = v\<close>: inside the array the element is replaced; at or beyond \<^verbatim>\<open>length\<close> the
  array grows to \<open>i + 1\<close> elements, with holes between; a negative index leaves the
  elements as they are.
\<close>

definition arr_set :: "slot list \<Rightarrow> int \<Rightarrow> slot \<Rightarrow> slot list" where
  "arr_set a i v =
     (if i < 0 then a
      else if nat i < length a then a[nat i := v]
      else a @ replicate (nat i - length a) Hole @ [v])"

text \<open>\<^verbatim>\<open>players[i]\<close>: \<open>None\<close> is \<^verbatim>\<open>undefined\<close>.\<close>

definition player_at :: "PlayerT list \<Rightarrow> int \<Rightarrow> PlayerT option" where
  "player_at ps i = (if i < 0 then None else if nat i < length ps then Some (ps ! nat i) else None)"

text \<open>\<^verbatim>\<open>{ ...x, faceUp: b }\<close> for an array element \<open>x\<close>.\<close>

definition with_face :: "slot \<Rightarrow> bool \<Rightarrow> CardT" where
  "with_face x b =
     (case x of
        Obj c \<Rightarrow> c\<lparr>faceUp := b\<rparr>
      | Hole \<Rightarrow> \<lparr>card_id = None, card_value = None, faceUp = b\<rparr>
      | Undefined \<Rightarrow> \<lparr>card_id = None, card_value = None, faceUp = b\<rparr>)"

text \<open>\<^verbatim>\<open>x?.faceUp\<close> read as a condition: false when \<open>x\<close> is \<^verbatim>\<open>undefined\<close>.\<close>

definition opt_faceUp :: "slot \<Rightarrow> bool" where
  "opt_faceUp x = (case x of Obj c \<Rightarrow> faceUp c | Hole \<Rightarrow> False | Undefined \<Rightarrow> False)"

subsection \<open>Utilities\<close>

text \<open>
  \<^verbatim>\<open>CARD_DISTRIBUTION\<close> as \<^verbatim>\<open>Object.entries\<close> lists it: the keys that are array indices
  (0 to 12) in ascending order, then \<^verbatim>\<open>"-2"\<close> and \<^verbatim>\<open>"-1"\<close> in the order they were written.
\<close>

definition CARD_DISTRIBUTION :: "(int \<times> nat) list" where
  "CARD_DISTRIBUTION =
     [(0, 15), (1, 10), (2, 10), (3, 10), (4, 10), (5, 10), (6, 10),
      (7, 8), (8, 8), (9, 8), (10, 8), (11, 8), (12, 8), (- 2, 5), (- 1, 10)]"

definition digit_char :: "nat \<Rightarrow> char" where
  "digit_char d = ''0123456789abcdefghijklmnopqrstuvwxyz'' ! d"

function to_base :: "nat \<Rightarrow> nat \<Rightarrow> string" where
  "to_base b n =
     (if b < 2 \<or> n < b then [digit_char n]
      else to_base b (n div b) @ [digit_char (n mod b)])"
  by pat_completeness auto
termination
  by (relation "measure (\<lambda>(b, n). n)") auto

text \<open>
  \<^verbatim>\<open>uid\<close>: \<open>n\<close> is the closure's counter before the call, \<open>clock n\<close> what \<^verbatim>\<open>Date.now()\<close>
  returns in the call that finds the counter at \<open>n\<close>.
\<close>

definition uid :: "(nat \<Rightarrow> nat) \<Rightarrow> nat \<Rightarrow> string" where
  "uid clock n = to_base 36 (clock n) @ ''_'' @ to_base 10 n"

text \<open>The inner loop of \<^verbatim>\<open>buildDeck\<close>: \<open>count\<close> pushes; returns the deck and the counter.\<close>

fun push_cards :: "(nat \<Rightarrow> nat) \<Rightarrow> nat \<Rightarrow> int \<Rightarrow> nat \<Rightarrow> CardT list \<Rightarrow> CardT list \<times> nat" where
  "push_cards clock n v 0 d = (d, n)"
| "push_cards clock n v (Suc cnt) d =
     push_cards clock (Suc n) v cnt
       (d @ [\<lparr>card_id = Some (uid clock n), card_value = Some v, faceUp = False\<rparr>])"

fun push_entries :: "(nat \<Rightarrow> nat) \<Rightarrow> nat \<Rightarrow> (int \<times> nat) list \<Rightarrow> CardT list \<Rightarrow> CardT list \<times> nat" where
  "push_entries clock n [] d = (d, n)"
| "push_entries clock n ((v, cnt) # es) d =
     (case push_cards clock n v cnt d of (d', n') \<Rightarrow> push_entries clock n' es d')"

text \<open>\<^verbatim>\<open>[a[i], a[j]] = [a[j], a[i]]\<close>\<close>

definition swap :: "'a list \<Rightarrow> nat \<Rightarrow> nat \<Rightarrow> 'a list" where
  "swap a i j = a[i := a ! j, j := a ! i]"

text \<open>
  \<^verbatim>\<open>shuffle\<close>: the loop \<^verbatim>\<open>for (let i = a.length - 1; i > 0; i--)\<close>. \<open>rnd k\<close> is what the
  \<open>k\<close>-th call of \<^verbatim>\<open>Math.random()\<close> returns, taken as a real number (the product and
  \<^verbatim>\<open>Math.floor\<close> are exact here, in the source they are in double precision).
\<close>

fun shuffle_loop :: "(nat \<Rightarrow> real) \<Rightarrow> nat \<Rightarrow> nat \<Rightarrow> 'a list \<Rightarrow> 'a list" where
  "shuffle_loop rnd k 0 a = a"
| "shuffle_loop rnd k (Suc i) a =
     (let j = nat \<lfloor>rnd k * real (Suc i + 1)\<rfloor>
      in shuffle_loop rnd (Suc k) i (swap a (Suc i) j))"

definition shuffle :: "(nat \<Rightarrow> real) \<Rightarrow> 'a list \<Rightarrow> 'a list" where
  "shuffle rnd arr = shuffle_loop rnd 0 (length arr - 1) arr"

definition buildDeck :: "(nat \<Rightarrow> nat) \<Rightarrow> nat \<Rightarrow> (nat \<Rightarrow> real) \<Rightarrow> CardT list" where
  "buildDeck clock n rnd = shuffle rnd (fst (push_entries clock n CARD_DISTRIBUTION []))"


subsection \<open>Numbers of the starter selection\<close>

text \<open>
  The sums are JavaScript numbers: a card object without \<^verbatim>\<open>value\<close> makes a sum \<^verbatim>\<open>NaN\<close>, and
  \<^verbatim>\<open>Math.max\<close> of no argument is \<^verbatim>\<open>-Infinity\<close>.
\<close>

datatype jsnum = NaN | NegInfinity | Num int

text \<open>\<^verbatim>\<open>acc + n\<close> where \<open>n\<close> is a card's \<^verbatim>\<open>value\<close> (\<open>None\<close>: \<^verbatim>\<open>undefined\<close>).\<close>

fun js_add :: "jsnum \<Rightarrow> int option \<Rightarrow> jsnum" where
  "js_add (Num a) (Some b) = Num (a + b)"
| "js_add NegInfinity (Some b) = NegInfinity"
| "js_add NaN (Some b) = NaN"
| "js_add acc None = NaN"

text \<open>\<^verbatim>\<open>sum\<close>: \<^verbatim>\<open>arr.reduce((acc, n) => acc + n, 0)\<close>\<close>

definition sum_arr :: "int option list \<Rightarrow> jsnum" where
  "sum_arr arr = foldl js_add (Num 0) arr"

text \<open>
  \<^verbatim>\<open>p.cards.filter((c) => c.faceUp).map((c) => c.value)\<close>: \<^verbatim>\<open>filter\<close> skips a hole and calls
  its function on \<^verbatim>\<open>undefined\<close>, where \<^verbatim>\<open>c.faceUp\<close> throws.
\<close>

fun visible_values :: "slot list \<Rightarrow> error + int option list" where
  "visible_values [] = Inr []"
| "visible_values (Hole # xs) = visible_values xs"
| "visible_values (Undefined # xs) = Inl TypeError"
| "visible_values (Obj c # xs) =
     (case visible_values xs of
        Inl e \<Rightarrow> Inl e
      | Inr vs \<Rightarrow> Inr (if faceUp c then card_value c # vs else vs))"

text \<open>\<^verbatim>\<open>players.map((p) => sum(...))\<close>\<close>

fun visible_sums :: "PlayerT list \<Rightarrow> error + jsnum list" where
  "visible_sums [] = Inr []"
| "visible_sums (p # ps) =
     (case visible_values (cards p) of
        Inl e \<Rightarrow> Inl e
      | Inr vs \<Rightarrow> (case visible_sums ps of Inl e \<Rightarrow> Inl e | Inr ss \<Rightarrow> Inr (sum_arr vs # ss)))"

fun js_max :: "jsnum \<Rightarrow> jsnum \<Rightarrow> jsnum" where
  "js_max NaN y = NaN"
| "js_max x NaN = NaN"
| "js_max NegInfinity y = y"
| "js_max x NegInfinity = x"
| "js_max (Num a) (Num b) = Num (max a b)"

text \<open>\<^verbatim>\<open>Math.max(...sums)\<close>\<close>

definition Math_max :: "jsnum list \<Rightarrow> jsnum" where
  "Math_max xs = foldl js_max NegInfinity xs"

text \<open>\<^verbatim>\<open>y === x\<close> on numbers: \<^verbatim>\<open>NaN\<close> equals nothing.\<close>

definition strict_eq :: "jsnum \<Rightarrow> jsnum \<Rightarrow> bool" where
  "strict_eq y x = (case y of NaN \<Rightarrow> False | NegInfinity \<Rightarrow> x = NegInfinity | Num a \<Rightarrow> x = Num a)"

fun indexOf_from :: "int \<Rightarrow> jsnum list \<Rightarrow> jsnum \<Rightarrow> int" where
  "indexOf_from i [] x = - 1"
| "indexOf_from i (y # ys) x = (if strict_eq y x then i else indexOf_from (i + 1) ys x)"

text \<open>\<^verbatim>\<open>sums.indexOf(max)\<close>: the first index, or \<open>-1\<close>.\<close>

definition indexOf :: "jsnum list \<Rightarrow> jsnum \<Rightarrow> int" where
  "indexOf xs x = indexOf_from 0 xs x"

text \<open>\<^verbatim>\<open>a % b\<close> for integers and \<open>b > 0\<close>: the sign of the result is the dividend's.\<close>

definition js_rem :: "int \<Rightarrow> int \<Rightarrow> int" where
  "js_rem a b = (if 0 \<le> a then a mod b else - ((- a) mod b))"

subsection \<open>Setting up\<close>

text \<open>The state variables as \<^verbatim>\<open>useState\<close> initialises them.\<close>

definition initial :: game where
  "initial =
     \<lparr>phase = Start, playerCount = 4, players = [], deck = [], discard = [],
      currentPlayer = 0, revealTargets = Map.empty, drawnCard = None\<rparr>"

text \<open>\<^verbatim>\<open>setPlayerCount\<close>, which the start screen calls with one of 2, ..., 8.\<close>

definition setPlayerCount :: "nat \<Rightarrow> game \<Rightarrow> game" where
  "setPlayerCount n s = s\<lparr>playerCount := n\<rparr>"

text \<open>\<^verbatim>\<open>d.pop()\<close>: the last element and the rest, \<^verbatim>\<open>undefined\<close> on an empty array.\<close>

definition pop :: "CardT list \<Rightarrow> slot \<times> CardT list" where
  "pop d = (if d = [] then (Undefined, []) else (Obj (last d), butlast d))"

text \<open>One hand: \<open>k\<close> times \<^verbatim>\<open>const c = d.pop()!; return { ...c, faceUp: false }\<close>.\<close>

fun deal_cards :: "nat \<Rightarrow> CardT list \<Rightarrow> slot list \<times> CardT list" where
  "deal_cards 0 d = ([], d)"
| "deal_cards (Suc k) d =
     (case pop d of (c, d1) \<Rightarrow>
        (case deal_cards k d1 of (cs, d2) \<Rightarrow> (Obj (with_face c False) # cs, d2)))"

text \<open>The players \<open>i\<close>, \<open>i + 1\<close>, ..., \<open>k\<close> of them.\<close>

fun deal_players :: "nat \<Rightarrow> nat \<Rightarrow> CardT list \<Rightarrow> PlayerT list \<times> CardT list" where
  "deal_players i 0 d = ([], d)"
| "deal_players i (Suc k) d =
     (case deal_cards 12 d of (cs, d1) \<Rightarrow>
        (case deal_players (Suc i) k d1 of (ps, d2) \<Rightarrow>
           (\<lparr>player_id = i, name = ''Spieler '' @ to_base 10 (i + 1), cards = cs\<rparr> # ps, d2)))"

text \<open>\<^verbatim>\<open>ps.forEach((p) => (init[p.id] = 0))\<close>\<close>

definition init_targets :: "PlayerT list \<Rightarrow> (nat \<rightharpoonup> nat)" where
  "init_targets ps = foldl (\<lambda>m p. m(player_id p \<mapsto> 0)) Map.empty ps"

text \<open>
  \<^verbatim>\<open>startGame\<close>. \<open>clock\<close> and \<open>n\<close> feed \<^verbatim>\<open>uid\<close>, \<open>rnd\<close> the shuffle. \<^verbatim>\<open>drawnCard\<close> and
  \<^verbatim>\<open>playerCount\<close> are not written.
\<close>

definition startGame :: "(nat \<Rightarrow> nat) \<Rightarrow> nat \<Rightarrow> (nat \<Rightarrow> real) \<Rightarrow> game \<Rightarrow> game" where
  "startGame clock n rnd s =
     (case deal_players 0 (playerCount s) (buildDeck clock n rnd) of (ps, d1) \<Rightarrow>
        (case pop d1 of (firstDiscard, d2) \<Rightarrow>
           s\<lparr>discard := [with_face firstDiscard True],
             players := ps,
             deck := d2,
             phase := Reveal,
             revealTargets := init_targets ps,
             currentPlayer := 0\<rparr>))"

subsection \<open>The initial reveal\<close>

text \<open>
  \<^verbatim>\<open>handleInitFlip\<close> (the spec's \<^verbatim>\<open>revealCard\<close>). The test \<^verbatim>\<open>cards[cIndex]?.faceUp\<close>
  returns from the updater only: the count and the turn are written either way. The sums
  of the starter selection (\<^verbatim>\<open>sums\<close> in the source, \<open>totals\<close> here) are taken from
  \<^verbatim>\<open>players\<close>, the hands before this flip.
\<close>

definition handleInitFlip :: "int \<Rightarrow> int \<Rightarrow> game \<Rightarrow> error + game" where
  "handleInitFlip pIndex cIndex s =
     (if phase s \<noteq> Reveal then Inr s
      else if pIndex \<noteq> currentPlayer s then Inr s
      else
        (case player_at (players s) pIndex of
           None \<Rightarrow> Inl TypeError
         | Some pc \<Rightarrow>
             (let revealed = (case revealTargets s (player_id pc) of None \<Rightarrow> 0 | Some r \<Rightarrow> r)
              in if 2 \<le> revealed then Inr s
                 else
                   (let cards0 = spread (cards pc);
                        players' =
                          (if opt_faceUp (arr_get cards0 cIndex) then players s
                           else (players s)
                                  [nat pIndex :=
                                     pc\<lparr>cards := arr_set cards0 cIndex
                                                    (Obj (with_face (arr_get cards0 cIndex) True))\<rparr>]);
                        nextCount = revealed + 1;
                        s1 = s\<lparr>players := players',
                               revealTargets := (revealTargets s)(player_id pc \<mapsto> nextCount)\<rparr>
                    in if nextCount = 2 then
                         (let nextPlayer = currentPlayer s + 1
                          in if nextPlayer < int (length (players s))
                             then Inr (s1\<lparr>currentPlayer := nextPlayer\<rparr>)
                             else
                               (case visible_sums (players s) of
                                  Inl e \<Rightarrow> Inl e
                                | Inr totals \<Rightarrow>
                                    (let startIndex = indexOf totals (Math_max totals)
                                     in case player_at (players s) startIndex of
                                          None \<Rightarrow> Inl TypeError
                                        | Some p \<Rightarrow>
                                            Inr (s1\<lparr>currentPlayer := startIndex, phase := Play\<rparr>))))
                       else Inr s1))))"

subsection \<open>The play phase\<close>

text \<open>
  \<^verbatim>\<open>endTurn\<close>. With no player \<^verbatim>\<open>next\<close> is \<^verbatim>\<open>NaN\<close> and \<^verbatim>\<open>players[next].name\<close> throws. The
  handlers below call it on the state they have built so far; it reads \<^verbatim>\<open>currentPlayer\<close>
  and \<^verbatim>\<open>players.length\<close>, which they leave as they were.
\<close>

definition endTurn :: "game \<Rightarrow> error + game" where
  "endTurn s =
     (if players s = [] then Inl TypeError
      else
        (let next = js_rem (currentPlayer s + 1) (int (length (players s)))
         in case player_at (players s) next of
              None \<Rightarrow> Inl TypeError
            | Some p \<Rightarrow> Inr (s\<lparr>drawnCard := None, currentPlayer := next\<rparr>)))"

definition drawFromDeck :: "game \<Rightarrow> error + game" where
  "drawFromDeck s =
     (if phase s \<noteq> Play \<or> drawnCard s \<noteq> None then Inr s
      else if deck s = [] then Inr s
      else
        (let c = last (deck s); d = butlast (deck s)
         in case player_at (players s) (currentPlayer s) of
              None \<Rightarrow> Inl TypeError
            | Some p \<Rightarrow> Inr (s\<lparr>deck := d, drawnCard := Some (c\<lparr>faceUp := True\<rparr>)\<rparr>)))"

definition takeFromDiscard :: "game \<Rightarrow> error + game" where
  "takeFromDiscard s =
     (if phase s \<noteq> Play \<or> drawnCard s \<noteq> None then Inr s
      else if discard s = [] then Inr s
      else
        (let c = last (discard s); p = butlast (discard s)
         in case player_at (players s) (currentPlayer s) of
              None \<Rightarrow> Inl TypeError
            | Some pl \<Rightarrow> Inr (s\<lparr>discard := p, drawnCard := Some c\<rparr>)))"

text \<open>
  \<^verbatim>\<open>placeDrawnAt\<close>. With \<^verbatim>\<open>cp[currentPlayer]\<close> undefined, \<^verbatim>\<open>[...pl.cards]\<close> throws.
\<close>

definition placeDrawnAt :: "int \<Rightarrow> game \<Rightarrow> error + game" where
  "placeDrawnAt index s =
     (case drawnCard s of
        None \<Rightarrow> Inr s
      | Some dc \<Rightarrow>
          (case player_at (players s) (currentPlayer s) of
             None \<Rightarrow> Inl TypeError
           | Some pl \<Rightarrow>
               (let cards0 = spread (cards pl);
                    replaced = arr_get cards0 index;
                    newCard = dc\<lparr>faceUp := True\<rparr>;
                    cards1 = arr_set cards0 index (Obj newCard)
                in endTurn
                     (s\<lparr>players := (players s)[nat (currentPlayer s) := pl\<lparr>cards := cards1\<rparr>],
                        discard := discard s @ [with_face replaced True]\<rparr>))))"

text \<open>
  \<^verbatim>\<open>discardDrawnAndFlip\<close> (the spec's \<^verbatim>\<open>discardAndFlip\<close>); \<open>None\<close> is a call without an
  index. \<^verbatim>\<open>cards[indexToFlip].faceUp\<close> throws where the element is \<^verbatim>\<open>undefined\<close>.
\<close>

definition discardDrawnAndFlip :: "int option \<Rightarrow> game \<Rightarrow> error + game" where
  "discardDrawnAndFlip indexToFlip s =
     (case drawnCard s of
        None \<Rightarrow> Inr s
      | Some dc \<Rightarrow>
          (let s1 = s\<lparr>discard := discard s @ [dc\<lparr>faceUp := True\<rparr>], drawnCard := None\<rparr>
           in case indexToFlip of
                None \<Rightarrow> endTurn s1
              | Some i \<Rightarrow>
                  (case player_at (players s) (currentPlayer s) of
                     None \<Rightarrow> Inl TypeError
                   | Some pl \<Rightarrow>
                       (let cards0 = spread (cards pl)
                        in case arr_get cards0 i of
                             Hole \<Rightarrow> Inl TypeError
                           | Undefined \<Rightarrow> Inl TypeError
                           | Obj c \<Rightarrow>
                               (let cards1 =
                                      (if \<not> faceUp c then arr_set cards0 i (Obj (c\<lparr>faceUp := True\<rparr>))
                                       else cards0)
                                in endTurn
                                     (s1\<lparr>players :=
                                           (players s)[nat (currentPlayer s) := pl\<lparr>cards := cards1\<rparr>]\<rparr>))))))"

text \<open>One handler after another: an uncaught error ends the run.\<close>

definition and_then :: "error + game \<Rightarrow> (game \<Rightarrow> error + game) \<Rightarrow> error + game" where
  "and_then r f = (case r of Inl e \<Rightarrow> Inl e | Inr s \<Rightarrow> f s)"

subsection \<open>Counting cards, reachable states\<close>

text \<open>The lengths of the deck, the discard pile and every hand, and one for a drawn card.\<close>

definition card_count :: "game \<Rightarrow> nat" where
  "card_count s =
     length (deck s) + length (discard s) + sum_list (map (\<lambda>p. length (cards p)) (players s))
     + (case drawnCard s of None \<Rightarrow> 0 | Some c \<Rightarrow> 1)"

definition hands_full :: "game \<Rightarrow> bool" where
  "hands_full s = list_all (\<lambda>p. length (cards p) = 12) (players s)"

text \<open>
  The states reached from a game started with 2 to 8 players by the five operations,
  called with slot indices that satisfy \<open>ok\<close>.
\<close>

inductive reachable_by :: "(int \<Rightarrow> bool) \<Rightarrow> game \<Rightarrow> bool" for ok :: "int \<Rightarrow> bool" where
  started:
    "2 \<le> n \<Longrightarrow> n \<le> 8 \<Longrightarrow> (\<And>k. 0 \<le> rnd k \<and> rnd k < 1) \<Longrightarrow>
     reachable_by ok (startGame clock m rnd (setPlayerCount n initial))"
| revealed:
    "reachable_by ok s \<Longrightarrow> ok cIndex \<Longrightarrow> handleInitFlip pIndex cIndex s = Inr s' \<Longrightarrow>
     reachable_by ok s'"
| drawn:
    "reachable_by ok s \<Longrightarrow> drawFromDeck s = Inr s' \<Longrightarrow> reachable_by ok s'"
| taken:
    "reachable_by ok s \<Longrightarrow> takeFromDiscard s = Inr s' \<Longrightarrow> reachable_by ok s'"
| placed:
    "reachable_by ok s \<Longrightarrow> ok index \<Longrightarrow> placeDrawnAt index s = Inr s' \<Longrightarrow>
     reachable_by ok s'"
| discarded:
    "reachable_by ok s \<Longrightarrow> discardDrawnAndFlip indexToFlip s = Inr s' \<Longrightarrow>
     reachable_by ok s'"

text \<open>Every call, and the calls whose slot index is one of the hand's twelve.\<close>

definition any_slot :: "int \<Rightarrow> bool" where
  "any_slot i = True"

definition in_grid :: "int \<Rightarrow> bool" where
  "in_grid i = (0 \<le> i \<and> i < 12)"

subsection \<open>Example games\<close>

text \<open>
  Two players and the 138 cards of the deck: the card at position \<open>k\<close> of the deal has the
  id that \<^verbatim>\<open>uid\<close> gives the counter \<open>k\<close> at time 0.
\<close>

fun cards_of :: "nat \<Rightarrow> (int \<times> bool) list \<Rightarrow> CardT list" where
  "cards_of k [] = []"
| "cards_of k ((v, f) # xs) =
     \<lparr>card_id = Some (uid (\<lambda>i. 0) k), card_value = Some v, faceUp = f\<rparr> # cards_of (Suc k) xs"

definition ex_player :: "nat \<Rightarrow> (int \<times> bool) list \<Rightarrow> PlayerT" where
  "ex_player i hand =
     \<lparr>player_id = i, name = ''Spieler '' @ to_base 10 (i + 1),
      cards = map Obj (cards_of (12 * i) hand)\<rparr>"

text \<open>The 112 cards that stay in the deck in every example, all face down.\<close>

definition ex_deck :: "CardT list" where
  "ex_deck =
     cards_of 25
       (map (\<lambda>v. (v, False))
          (replicate 5 (- 2) @ replicate 9 (- 1) @ replicate 13 0 @ replicate 8 1 @ replicate 7 2
           @ replicate 8 3 @ replicate 8 4 @ replicate 8 5 @ replicate 8 6 @ replicate 6 7
           @ replicate 6 8 @ replicate 6 9 @ replicate 6 10 @ replicate 7 11 @ replicate 7 12))"

text \<open>The card on top of the deck during the reveal, the drawn card later.\<close>

definition ex_top :: CardT where
  "ex_top = \<lparr>card_id = Some (uid (\<lambda>i. 0) 137), card_value = Some 2, faceUp = False\<rparr>"

definition ex_discard :: "CardT list" where
  "ex_discard = cards_of 24 [(10, True)]"

text \<open>
  The hand of player 0 is 5, 3, 0, 1, 2, 4, 6, 7, 8, 9, 10, 11, that of player 1 is
  0, 12, 1, 2, 3, 4, 5, 6, 7, 8, 9, -1. The players with no, one and two cards revealed:
\<close>

definition ex_p0_one :: PlayerT where
  "ex_p0_one =
     ex_player 0 [(5, True), (3, False), (0, False), (1, False), (2, False), (4, False),
                  (6, False), (7, False), (8, False), (9, False), (10, False), (11, False)]"

definition ex_p0_two :: PlayerT where
  "ex_p0_two =
     ex_player 0 [(5, True), (3, True), (0, False), (1, False), (2, False), (4, False),
                  (6, False), (7, False), (8, False), (9, False), (10, False), (11, False)]"

definition ex_p1_none :: PlayerT where
  "ex_p1_none =
     ex_player 1 [(0, False), (12, False), (1, False), (2, False), (3, False), (4, False),
                  (5, False), (6, False), (7, False), (8, False), (9, False), (- 1, False)]"

definition ex_p1_one :: PlayerT where
  "ex_p1_one =
     ex_player 1 [(0, True), (12, False), (1, False), (2, False), (3, False), (4, False),
                  (5, False), (6, False), (7, False), (8, False), (9, False), (- 1, False)]"

definition ex_p1_two :: PlayerT where
  "ex_p1_two =
     ex_player 1 [(0, True), (12, True), (1, False), (2, False), (3, False), (4, False),
                  (5, False), (6, False), (7, False), (8, False), (9, False), (- 1, False)]"

text \<open>The reveal phase, player 0 to move, who has revealed slot 0 and nothing else.\<close>

definition ex_one_revealed :: game where
  "ex_one_revealed =
     \<lparr>phase = Reveal, playerCount = 2,
      players = [ex_p0_one, ex_p1_none],
      deck = ex_deck @ [ex_top],
      discard = ex_discard,
      currentPlayer = 0,
      revealTargets = [0 \<mapsto> 1, 1 \<mapsto> 0],
      drawnCard = None\<rparr>"

text \<open>
  The reveal phase, player 1 to move: player 0 has revealed a 5 and a 3, player 1 has
  revealed slot 0 (a 0) and has a 12 face down in slot 1.
\<close>

definition ex_last_reveal :: game where
  "ex_last_reveal =
     \<lparr>phase = Reveal, playerCount = 2,
      players = [ex_p0_two, ex_p1_one],
      deck = ex_deck @ [ex_top],
      discard = ex_discard,
      currentPlayer = 1,
      revealTargets = [0 \<mapsto> 2, 1 \<mapsto> 1],
      drawnCard = None\<rparr>"

text \<open>The play phase, player 1 to move, before drawing.\<close>

definition ex_play :: game where
  "ex_play =
     \<lparr>phase = Play, playerCount = 2,
      players = [ex_p0_two, ex_p1_two],
      deck = ex_deck @ [ex_top],
      discard = ex_discard,
      currentPlayer = 1,
      revealTargets = [0 \<mapsto> 2, 1 \<mapsto> 2],
      drawnCard = None\<rparr>"

text \<open>The same game after player 1 has drawn the top of the deck.\<close>

definition ex_drawn :: game where
  "ex_drawn = ex_play\<lparr>deck := ex_deck, drawnCard := Some (ex_top\<lparr>faceUp := True\<rparr>)\<rparr>"

text \<open>The play phase with an empty deck, and with an empty discard pile.\<close>

definition ex_no_deck :: game where
  "ex_no_deck = ex_play\<lparr>deck := [], discard := ex_discard @ ex_deck @ [ex_top]\<rparr>"

definition ex_no_discard :: game where
  "ex_no_discard = ex_play\<lparr>discard := []\<rparr>"

text \<open>The values in a hand, \<open>None\<close> where an element has none.\<close>

definition hand_values :: "PlayerT \<Rightarrow> int option list" where
  "hand_values p =
     map (\<lambda>x. case x of Obj c \<Rightarrow> card_value c | Hole \<Rightarrow> None | Undefined \<Rightarrow> None) (cards p)"

text \<open>
  A game of two players as \<^verbatim>\<open>startGame\<close> leaves it, with the clock at 0 and a random
  source that always returns 0.
\<close>

definition ex_started :: game where
  "ex_started = startGame (\<lambda>k. 0) 0 (\<lambda>k. 0) (setPlayerCount 2 initial)"

section \<open>The deck\<close>

lemma push_cards_values:
  "map card_value (fst (push_cards clock n v cnt d)) = map card_value d @ replicate cnt (Some v)"
  by (induction cnt arbitrary: n d) (simp_all add: replicate_app_Cons_same)

lemma push_cards_faces:
  "map faceUp (fst (push_cards clock n v cnt d)) = map faceUp d @ replicate cnt False"
  by (induction cnt arbitrary: n d) (simp_all add: replicate_app_Cons_same)

lemma swap_mset:
  "i < length a \<Longrightarrow> j < length a \<Longrightarrow> mset (swap a i j) = mset a"
  unfolding swap_def by (simp add: mset_swap)

lemma swap_length: "length (swap a i j) = length a"
  unfolding swap_def by simp

lemma random_index:
  fixes r :: real
  assumes "0 \<le> r" and "r < 1"
  shows "nat \<lfloor>r * real (Suc n)\<rfloor> < Suc n"
proof -
  have "r * real (Suc n) < real (Suc n)"
    using assms by (simp add: mult_less_cancel_right2)
  then have "\<lfloor>r * real (Suc n)\<rfloor> < int (Suc n)"
    by (simp add: floor_less_iff)
  then show ?thesis by linarith
qed

lemma shuffle_loop_mset:
  assumes "\<And>k. 0 \<le> rnd k \<and> rnd k < 1"
  shows "i < length a \<Longrightarrow> mset (shuffle_loop rnd k i a) = mset a"
proof (induction i arbitrary: k a)
  case 0
  then show ?case by simp
next
  case (Suc i)
  have "nat \<lfloor>rnd k * real (Suc (Suc i))\<rfloor> < Suc (Suc i)"
    using assms random_index by blast
  then have j: "nat \<lfloor>rnd k * real (Suc (Suc i))\<rfloor> < length a"
    using Suc.prems by linarith
  have "mset (shuffle_loop rnd (Suc k) i (swap a (Suc i) (nat \<lfloor>rnd k * real (Suc (Suc i))\<rfloor>)))
        = mset (swap a (Suc i) (nat \<lfloor>rnd k * real (Suc (Suc i))\<rfloor>))"
    using Suc.prems by (intro Suc.IH) (simp add: swap_length)
  then show ?case
    using Suc.prems j by (simp add: swap_mset)
qed

lemma shuffle_mset:
  assumes "\<And>k. 0 \<le> rnd k \<and> rnd k < 1"
  shows "mset (shuffle rnd arr) = mset arr"
proof (cases arr)
  case Nil
  then show ?thesis by (simp add: shuffle_def)
next
  case (Cons x xs)
  then show ?thesis
    unfolding shuffle_def using assms by (intro shuffle_loop_mset) simp_all
qed

lemma push_entries_step:
  "push_entries clock n ((v, cnt) # es) d =
     push_entries clock (snd (push_cards clock n v cnt d)) es (fst (push_cards clock n v cnt d))"
  by (simp add: case_prod_beta)

lemma push_entries_values:
  "map card_value (fst (push_entries clock n es d)) =
     map card_value d @ concat (map (\<lambda>(v, cnt). replicate cnt (Some v)) es)"
proof (induction es arbitrary: n d)
  case Nil
  then show ?case by simp
next
  case (Cons e es)
  obtain v cnt where e: "e = (v, cnt)" by (cases e)
  show ?case
    unfolding e push_entries_step
    by (simp add: Cons.IH push_cards_values)
qed

lemma push_entries_faces:
  "map faceUp (fst (push_entries clock n es d)) =
     map faceUp d @ replicate (sum_list (map snd es)) False"
proof (induction es arbitrary: n d)
  case Nil
  then show ?case by simp
next
  case (Cons e es)
  obtain v cnt where e: "e = (v, cnt)" by (cases e)
  show ?case
    unfolding e push_entries_step
    by (simp add: Cons.IH push_cards_faces replicate_add)
qed

lemma unshuffled_values:
  "mset (map card_value (fst (push_entries clock n CARD_DISTRIBUTION []))) =
     replicate_mset 5 (Some (- 2)) + replicate_mset 10 (Some (- 1)) + replicate_mset 15 (Some 0)
     + replicate_mset 10 (Some 1) + replicate_mset 10 (Some 2) + replicate_mset 10 (Some 3)
     + replicate_mset 10 (Some 4) + replicate_mset 10 (Some 5) + replicate_mset 10 (Some 6)
     + replicate_mset 8 (Some 7) + replicate_mset 8 (Some 8) + replicate_mset 8 (Some 9)
     + replicate_mset 8 (Some 10) + replicate_mset 8 (Some 11) + replicate_mset 8 (Some 12)"
  unfolding push_entries_values CARD_DISTRIBUTION_def
  by (simp only: list.map concat.simps prod.case append_Nil append_Nil2 mset_append mset_replicate
        ac_simps)

lemma unshuffled_faces:
  "map faceUp (fst (push_entries clock n CARD_DISTRIBUTION [])) = replicate 138 False"
  unfolding push_entries_faces by (simp add: CARD_DISTRIBUTION_def)

lemma unshuffled_length: "length (fst (push_entries clock n CARD_DISTRIBUTION [])) = 138"
  using arg_cong [OF unshuffled_faces, of length] by simp

lemma unshuffled_face_down:
  "c \<in> set (fst (push_entries clock n CARD_DISTRIBUTION [])) \<Longrightarrow> faceUp c = False"
proof -
  assume "c \<in> set (fst (push_entries clock n CARD_DISTRIBUTION []))"
  then have "faceUp c \<in> set (map faceUp (fst (push_entries clock n CARD_DISTRIBUTION [])))"
    by simp
  then show ?thesis
    unfolding unshuffled_faces by simp
qed

lemma buildDeck_mset:
  assumes "\<And>k. 0 \<le> rnd k \<and> rnd k < 1"
  shows "mset (buildDeck clock n rnd) = mset (fst (push_entries clock n CARD_DISTRIBUTION []))"
  unfolding buildDeck_def using assms by (rule shuffle_mset)

lemma buildDeck_length:
  assumes "\<And>k. 0 \<le> rnd k \<and> rnd k < 1"
  shows "length (buildDeck clock n rnd) = 138"
  using mset_eq_length [OF buildDeck_mset [OF assms]] unshuffled_length by simp

text \<open>
  C2 (as amended). For every random source whose values lie in \<open>[0, 1)\<close>, as those of
  \<^verbatim>\<open>Math.random()\<close> do, \<^verbatim>\<open>buildDeck()\<close> returns 138 cards, the sum of the counts of
  \<^verbatim>\<open>CARD_DISTRIBUTION\<close>; all of them are face down; and their values are, as a multiset,
  those of the table: five times -2, ten times -1, fifteen times 0, ten times each of
  1, ..., 6 and eight times each of 7, ..., 12.
\<close>

theorem buildDeck_distribution:
  assumes "\<forall>k. 0 \<le> rnd k \<and> rnd k < 1"
  shows "length (buildDeck clock n rnd) = 138
       \<and> list_all (\<lambda>c. faceUp c = False) (buildDeck clock n rnd)
       \<and> mset (map card_value (buildDeck clock n rnd)) =
           replicate_mset 5 (Some (- 2)) + replicate_mset 10 (Some (- 1)) + replicate_mset 15 (Some 0)
           + replicate_mset 10 (Some 1) + replicate_mset 10 (Some 2) + replicate_mset 10 (Some 3)
           + replicate_mset 10 (Some 4) + replicate_mset 10 (Some 5) + replicate_mset 10 (Some 6)
           + replicate_mset 8 (Some 7) + replicate_mset 8 (Some 8) + replicate_mset 8 (Some 9)
           + replicate_mset 8 (Some 10) + replicate_mset 8 (Some 11) + replicate_mset 8 (Some 12)"
proof -
  have r: "\<And>k. 0 \<le> rnd k \<and> rnd k < 1" using assms by simp
  have m: "mset (buildDeck clock n rnd) = mset (fst (push_entries clock n CARD_DISTRIBUTION []))"
    using r by (rule buildDeck_mset)
  have len: "length (buildDeck clock n rnd) = 138"
    using r by (rule buildDeck_length)
  have "set (buildDeck clock n rnd) = set (fst (push_entries clock n CARD_DISTRIBUTION []))"
    using m by (rule mset_eq_setD)
  then have faces: "list_all (\<lambda>c. faceUp c = False) (buildDeck clock n rnd)"
    using unshuffled_face_down unfolding list_all_iff by blast
  have "mset (map card_value (buildDeck clock n rnd))
        = mset (map card_value (fst (push_entries clock n CARD_DISTRIBUTION [])))"
    using m by (metis mset_map)
  then show ?thesis
    using len faces unfolding unshuffled_values by blast
qed

text \<open>The theorem for the random source that always returns 0.\<close>

theorem buildDeck_distribution_witness:
  "length (buildDeck (\<lambda>k. 0) 0 (\<lambda>k. 0)) = 138
   \<and> list_all (\<lambda>c. faceUp c = False) (buildDeck (\<lambda>k. 0) 0 (\<lambda>k. 0))
   \<and> count (mset (map card_value (buildDeck (\<lambda>k. 0) 0 (\<lambda>k. 0)))) (Some 7) = 8"
  using buildDeck_distribution [of "\<lambda>k. 0" "\<lambda>k. 0" 0] by simp

text \<open>C2 as stated: the deck does not have 150 cards.\<close>

theorem buildDeck_150_counterexample:
  "length (buildDeck (\<lambda>k. 0) 0 (\<lambda>k. 0)) = 138 \<and> length (buildDeck (\<lambda>k. 0) 0 (\<lambda>k. 0)) \<noteq> 150"
  using buildDeck_length [of "\<lambda>k. 0" "\<lambda>k. 0" 0] by simp

section \<open>The engine\<close>

lemma spread_length [simp]: "length (spread a) = length a"
  by (simp add: spread_def)

lemma arr_set_length:
  "0 \<le> i \<Longrightarrow> i < int (length a) \<Longrightarrow> length (arr_set a i v) = length a"
  by (auto simp: arr_set_def)

lemma player_at_Some:
  "player_at ps i = Some p \<Longrightarrow> 0 \<le> i \<and> nat i < length ps \<and> ps ! nat i = p"
  by (auto simp: player_at_def split: if_splits)

lemma hand_sum_update:
  assumes "i < length ps" and "length (cards p') = length (cards (ps ! i))"
  shows "sum_list (map (\<lambda>p. length (cards p)) (ps[i := p'])) = sum_list (map (\<lambda>p. length (cards p)) ps)"
proof -
  have "map (\<lambda>p. length (cards p)) (ps[i := p']) = (map (\<lambda>p. length (cards p)) ps)[i := length (cards p')]"
    by (rule map_update)
  also have "\<dots> = map (\<lambda>p. length (cards p)) ps"
    using assms by (simp add: list_update_same_conv)
  finally show ?thesis by simp
qed

lemma hands_update:
  assumes "list_all (\<lambda>p. length (cards p) = 12) ps" and "length (cards p') = 12"
  shows "list_all (\<lambda>p. length (cards p) = 12) (ps[i := p'])"
  using assms unfolding list_all_iff by (auto dest: set_update_subset_insert [THEN subsetD])

lemma pop_length: "length (snd (pop d)) = length d - 1"
  by (simp add: pop_def)

lemma deal_cards_length:
  "length (fst (deal_cards k d)) = k \<and> length (snd (deal_cards k d)) = length d - k"
proof (induction k arbitrary: d)
  case 0
  then show ?case by simp
next
  case (Suc k)
  show ?case
    using Suc.IH [of "snd (pop d)"] pop_length [of d]
    by (simp add: case_prod_beta)
qed

lemma deal_players_hands:
  "list_all (\<lambda>p. length (cards p) = 12) (fst (deal_players i k d))
   \<and> sum_list (map (\<lambda>p. length (cards p)) (fst (deal_players i k d))) = 12 * k
   \<and> length (fst (deal_players i k d)) = k
   \<and> length (snd (deal_players i k d)) = length d - 12 * k"
proof (induction k arbitrary: i d)
  case 0
  then show ?case by simp
next
  case (Suc k)
  show ?case
    using Suc.IH [of "Suc i" "snd (deal_cards 12 d)"] deal_cards_length [of 12 d]
    by (simp add: case_prod_beta)
qed

lemma startGame_fields:
  "players (startGame clock m rnd s) = fst (deal_players 0 (playerCount s) (buildDeck clock m rnd))"
  "deck (startGame clock m rnd s) = snd (pop (snd (deal_players 0 (playerCount s) (buildDeck clock m rnd))))"
  "length (discard (startGame clock m rnd s)) = 1"
  "drawnCard (startGame clock m rnd s) = drawnCard s"
  "phase (startGame clock m rnd s) = Reveal"
  "currentPlayer (startGame clock m rnd s) = 0"
  by (simp_all add: startGame_def case_prod_beta)

lemma startGame_count:
  assumes "\<And>k. 0 \<le> rnd k \<and> rnd k < 1" and "12 * playerCount s + 1 \<le> 138" and "drawnCard s = None"
  shows "card_count (startGame clock m rnd s) = 138" and "hands_full (startGame clock m rnd s)"
proof -
  have len: "length (buildDeck clock m rnd) = 138"
    using assms(1) by (rule buildDeck_length)
  note d = deal_players_hands [of 0 "playerCount s" "buildDeck clock m rnd"]
  show "card_count (startGame clock m rnd s) = 138"
    unfolding card_count_def startGame_fields
    using d len assms(2,3) by (simp add: pop_length)
  show "hands_full (startGame clock m rnd s)"
    unfolding hands_full_def startGame_fields using d by simp
qed

lemma endTurn_Inr:
  "endTurn s = Inr s' \<Longrightarrow>
   s' = s\<lparr>drawnCard := None, currentPlayer := js_rem (currentPlayer s + 1) (int (length (players s)))\<rparr>"
  by (auto simp: endTurn_def Let_def split: if_splits option.splits)

lemma card_count_endTurn:
  "endTurn s = Inr s' \<Longrightarrow>
   card_count s' + (case drawnCard s of None \<Rightarrow> 0 | Some c \<Rightarrow> 1) = card_count s \<and> players s' = players s"
  by (auto dest!: endTurn_Inr simp: card_count_def split: option.splits)

lemma handleInitFlip_inv:
  assumes "handleInitFlip pIndex cIndex s = Inr s'" and "in_grid cIndex" and "hands_full s"
  shows "card_count s' = card_count s \<and> hands_full s'"
proof (cases "phase s = Reveal \<and> pIndex = currentPlayer s")
  case False
  then have "s' = s" using assms(1) by (auto simp: handleInitFlip_def split: if_splits)
  then show ?thesis using assms(3) by simp
next
  case True
  then obtain pc where pc: "player_at (players s) pIndex = Some pc"
    using assms(1) by (auto simp: handleInitFlip_def split: option.splits)
  note p = player_at_Some [OF pc]
  have full: "length (cards pc) = 12"
    using assms(3) p unfolding hands_full_def list_all_length by auto
  define cs where "cs = arr_set (spread (cards pc)) cIndex (Obj (with_face (arr_get (spread (cards pc)) cIndex) True))"
  have lcs: "length cs = 12"
    unfolding cs_def using assms(2) full by (simp add: arr_set_length in_grid_def)
  define ps' where "ps' = (if opt_faceUp (arr_get (spread (cards pc)) cIndex) then players s
                           else (players s)[nat pIndex := pc\<lparr>cards := cs\<rparr>])"
  have sum: "sum_list (map (\<lambda>p. length (cards p)) ps') = sum_list (map (\<lambda>p. length (cards p)) (players s))"
    unfolding ps'_def using p lcs full by (simp add: hand_sum_update)
  have all: "list_all (\<lambda>p. length (cards p) = 12) ps'"
    unfolding ps'_def using assms(3) lcs by (simp add: hands_full_def hands_update)
  have "players s' = ps' \<or> players s' = players s"
    and "deck s' = deck s" and "discard s' = discard s" and "drawnCard s' = drawnCard s"
    using assms(1) True pc unfolding handleInitFlip_def ps'_def cs_def
    by (auto simp: Let_def split: if_splits option.splits sum.splits)
  then show ?thesis
    using sum all assms(3) unfolding card_count_def hands_full_def by auto
qed

lemma drawFromDeck_inv:
  assumes "drawFromDeck s = Inr s'"
  shows "card_count s' = card_count s \<and> players s' = players s"
  using assms
  by (auto simp: drawFromDeck_def card_count_def Let_def split: if_splits option.splits)

lemma takeFromDiscard_inv:
  assumes "takeFromDiscard s = Inr s'"
  shows "card_count s' = card_count s \<and> players s' = players s"
  using assms
  by (auto simp: takeFromDiscard_def card_count_def Let_def split: if_splits option.splits)


lemma placeDrawnAt_inv:
  assumes "placeDrawnAt index s = Inr s'" and "in_grid index" and "hands_full s"
  shows "card_count s' = card_count s \<and> hands_full s'"
proof (cases "drawnCard s")
  case None
  then have "s' = s" using assms(1) by (simp add: placeDrawnAt_def)
  then show ?thesis using assms(3) by simp
next
  case (Some dc)
  then obtain pl where pl: "player_at (players s) (currentPlayer s) = Some pl"
    using assms(1) by (auto simp: placeDrawnAt_def split: option.splits)
  note p = player_at_Some [OF pl]
  have full: "length (cards pl) = 12"
    using assms(3) p unfolding hands_full_def list_all_length by auto
  define cs where "cs = arr_set (spread (cards pl)) index (Obj (dc\<lparr>faceUp := True\<rparr>))"
  define t where "t = s\<lparr>players := (players s)[nat (currentPlayer s) := pl\<lparr>cards := cs\<rparr>],
                        discard := discard s @ [with_face (arr_get (spread (cards pl)) index) True]\<rparr>"
  have lcs: "length cs = 12"
    unfolding cs_def using assms(2) full by (simp add: arr_set_length in_grid_def)
  have e: "endTurn t = Inr s'"
    using assms(1) Some pl unfolding placeDrawnAt_def t_def cs_def by (simp add: Let_def)
  have sum: "sum_list (map (\<lambda>p. length (cards p)) (players t)) = sum_list (map (\<lambda>p. length (cards p)) (players s))"
    unfolding t_def using p lcs full by (simp add: hand_sum_update)
  have all: "list_all (\<lambda>p. length (cards p) = 12) (players t)"
    unfolding t_def using assms(3) lcs by (simp add: hands_full_def hands_update)
  have ct: "card_count t = card_count s + 1"
    using sum unfolding card_count_def by (simp add: t_def)
  have dt: "drawnCard t = Some dc"
    using Some by (simp add: t_def)
  show ?thesis
    using card_count_endTurn [OF e] ct dt all by (simp add: hands_full_def)
qed

lemma arr_get_Obj:
  "arr_get a i = Obj c \<Longrightarrow> 0 \<le> i \<and> i < int (length a)"
  by (auto simp: arr_get_def split: if_splits)

lemma discardDrawnAndFlip_inv:
  assumes "discardDrawnAndFlip indexToFlip s = Inr s'" and "hands_full s"
  shows "card_count s' = card_count s \<and> hands_full s'"
proof (cases "drawnCard s")
  case None
  then have "s' = s" using assms(1) by (simp add: discardDrawnAndFlip_def)
  then show ?thesis using assms(2) by simp
next
  case (Some dc)
  define s1 where "s1 = s\<lparr>discard := discard s @ [dc\<lparr>faceUp := True\<rparr>], drawnCard := None\<rparr>"
  have c1: "card_count s1 = card_count s"
    using Some by (simp add: s1_def card_count_def)
  show ?thesis
  proof (cases indexToFlip)
    case None
    then have "endTurn s1 = Inr s'"
      using assms(1) Some unfolding discardDrawnAndFlip_def s1_def by (simp add: Let_def)
    from card_count_endTurn [OF this] show ?thesis
      using c1 assms(2) by (simp add: s1_def hands_full_def)
  next
    case (Some i)
    obtain pl where pl: "player_at (players s) (currentPlayer s) = Some pl"
      using assms(1) Some \<open>drawnCard s = Some dc\<close>
      by (auto simp: discardDrawnAndFlip_def Let_def split: option.splits)
    note p = player_at_Some [OF pl]
    have full: "length (cards pl) = 12"
      using assms(2) p unfolding hands_full_def list_all_length by auto
    obtain c where c: "arr_get (spread (cards pl)) i = Obj c"
      using assms(1) Some pl \<open>drawnCard s = Some dc\<close>
      by (auto simp: discardDrawnAndFlip_def Let_def split: slot.splits)
    define cs where "cs = (if \<not> faceUp c then arr_set (spread (cards pl)) i (Obj (c\<lparr>faceUp := True\<rparr>))
                           else spread (cards pl))"
    define t where "t = s1\<lparr>players := (players s)[nat (currentPlayer s) := pl\<lparr>cards := cs\<rparr>]\<rparr>"
    have lcs: "length cs = 12"
      unfolding cs_def using arr_get_Obj [OF c] full by (simp add: arr_set_length)
    have e: "endTurn t = Inr s'"
      using assms(1) Some pl c \<open>drawnCard s = Some dc\<close>
      unfolding discardDrawnAndFlip_def t_def cs_def s1_def by (simp add: Let_def)
    have sum: "sum_list (map (\<lambda>p. length (cards p)) (players t)) = sum_list (map (\<lambda>p. length (cards p)) (players s))"
      unfolding t_def using p lcs full by (simp add: hand_sum_update)
    have all: "list_all (\<lambda>p. length (cards p) = 12) (players t)"
      unfolding t_def using assms(2) lcs by (simp add: hands_full_def hands_update)
    have ct: "card_count t = card_count s"
      using sum c1 unfolding card_count_def by (simp add: t_def s1_def)
    have dt: "drawnCard t = None"
      by (simp add: t_def s1_def)
    show ?thesis
      using card_count_endTurn [OF e] ct dt all by (simp add: hands_full_def)
  qed
qed

lemma reachable_in_grid_inv:
  "reachable_by in_grid s \<Longrightarrow> card_count s = 138 \<and> hands_full s"
proof (induction rule: reachable_by.induct)
  case (started n rnd clock m)
  have "12 * playerCount (setPlayerCount n initial) + 1 \<le> 138"
    using started(2) by (simp add: setPlayerCount_def)
  moreover have "drawnCard (setPlayerCount n initial) = None"
    by (simp add: setPlayerCount_def initial_def)
  ultimately show ?case
    using startGame_count [of rnd "setPlayerCount n initial" clock m] started(3) by blast
next
  case (revealed s cIndex pIndex s')
  then show ?case using handleInitFlip_inv by metis
next
  case (drawn s s')
  then show ?case using drawFromDeck_inv [of s s'] by (simp add: hands_full_def)
next
  case (taken s s')
  then show ?case using takeFromDiscard_inv [of s s'] by (simp add: hands_full_def)
next
  case (placed s index s')
  then show ?case using placeDrawnAt_inv by metis
next
  case (discarded s indexToFlip s')
  then show ?case using discardDrawnAndFlip_inv by metis
qed

text \<open>
  C1 (as amended). In every state reached from \<^verbatim>\<open>startGame\<close> with 2 to 8 players by
  \<^verbatim>\<open>revealCard\<close>, \<^verbatim>\<open>drawFromDeck\<close>, \<^verbatim>\<open>takeFromDiscard\<close>, \<^verbatim>\<open>placeDrawnAt\<close> and \<^verbatim>\<open>discardAndFlip\<close>,
  called with card and slot indices from 0 to 11, the cards of the deck, of the discard
  pile and of all hands, plus one for a drawn card, are 138.
\<close>

theorem conservation:
  "reachable_by in_grid s \<Longrightarrow> card_count s = 138"
  using reachable_in_grid_inv by blast

text \<open>
  The theorem at the state \<^verbatim>\<open>startGame\<close> leaves for two players.
\<close>

theorem conservation_witness:
  "card_count (startGame (\<lambda>k. 0) 0 (\<lambda>k. 0) (setPlayerCount 2 initial)) = 138"
  by (rule conservation, rule reachable_by.started) simp_all


lemma init_targets_fold:
  "foldl (\<lambda>m p. m(player_id p \<mapsto> 0)) m0 ps k
     = (if k \<in> player_id ` set ps then Some 0 else m0 k)"
  by (induction ps arbitrary: m0) auto

lemma init_targets_member:
  "p \<in> set ps \<Longrightarrow> init_targets ps (player_id p) = Some 0"
  by (simp add: init_targets_def init_targets_fold)

lemma reveal_beyond_hand:
  assumes "phase s = Reveal"
    and "player_at (players s) (currentPlayer s) = Some pc"
    and "revealTargets s (player_id pc) = Some 0"
    and "length (cards pc) = 12"
  shows "\<exists>s'. handleInitFlip (currentPlayer s) 12 s = Inr s' \<and> card_count s' = card_count s + 1"
proof -
  note p = player_at_Some [OF assms(2)]
  have g: "arr_get (spread (cards pc)) 12 = Undefined"
    using assms(4) by (simp add: arr_get_def)
  define cs where "cs = arr_set (spread (cards pc)) 12 (Obj (with_face Undefined True))"
  have lcs: "length cs = 13"
    unfolding cs_def using assms(4) by (simp add: arr_set_def)
  define s' where "s' = s\<lparr>players := (players s)[nat (currentPlayer s) := pc\<lparr>cards := cs\<rparr>],
                          revealTargets := (revealTargets s)(player_id pc \<mapsto> 1)\<rparr>"
  have r: "handleInitFlip (currentPlayer s) 12 s = Inr s'"
    using assms(1,2,3) g
    by (simp add: handleInitFlip_def Let_def opt_faceUp_def s'_def cs_def)
  have "map (\<lambda>p. length (cards p)) (players s') = (map (\<lambda>p. length (cards p)) (players s))[nat (currentPlayer s) := 13]"
    using lcs by (simp add: s'_def map_update)
  then have "sum_list (map (\<lambda>p. length (cards p)) (players s'))
             = sum_list (map (\<lambda>p. length (cards p)) (players s)) + 13 - 12"
    using p assms(4) by (simp add: sum_list_update)
  moreover have "12 \<le> sum_list (map (\<lambda>p. length (cards p)) (players s))"
  proof -
    have "pc \<in> set (players s)"
      using p nth_mem by blast
    then have "length (cards pc) \<in> set (map (\<lambda>p. length (cards p)) (players s))"
      by simp
    then have "length (cards pc) \<le> sum_list (map (\<lambda>p. length (cards p)) (players s))"
      by (simp add: member_le_sum_list)
    then show ?thesis using assms(4) by simp
  qed
  ultimately have "card_count s' = card_count s + 1"
    by (simp add: card_count_def s'_def)
  then show ?thesis using r by blast
qed

lemma ex_started_facts:
  "phase ex_started = Reveal" "currentPlayer ex_started = 0" "card_count ex_started = 138"
  "\<exists>pc. player_at (players ex_started) 0 = Some pc \<and> length (cards pc) = 12
        \<and> revealTargets ex_started (player_id pc) = Some 0"
proof -
  have r: "\<And>k::nat. (0::real) \<le> 0 \<and> (0::real) < 1" by simp
  show "phase ex_started = Reveal" "currentPlayer ex_started = 0"
    by (simp_all add: ex_started_def startGame_fields)
  show "card_count ex_started = 138"
    unfolding ex_started_def
    by (rule startGame_count) (simp_all add: setPlayerCount_def initial_def)
  have full: "hands_full ex_started"
    unfolding ex_started_def
    by (rule startGame_count) (simp_all add: setPlayerCount_def initial_def)
  have len: "length (players ex_started) = 2"
    using deal_players_hands [of 0 2 "buildDeck (\<lambda>k. 0) 0 (\<lambda>k. 0)"]
    by (simp add: ex_started_def startGame_fields setPlayerCount_def initial_def)
  define pc where "pc = players ex_started ! 0"
  have at: "player_at (players ex_started) 0 = Some pc"
    using len by (simp add: player_at_def pc_def)
  have mem: "pc \<in> set (players ex_started)"
    using len by (simp add: pc_def)
  then have "length (cards pc) = 12"
    using full by (simp add: hands_full_def list_all_iff)
  moreover have "revealTargets ex_started = init_targets (players ex_started)"
    by (simp add: ex_started_def startGame_def case_prod_beta)
  then have "revealTargets ex_started (player_id pc) = Some 0"
    using mem by (simp add: init_targets_member)
  ultimately show "\<exists>pc. player_at (players ex_started) 0 = Some pc \<and> length (cards pc) = 12
        \<and> revealTargets ex_started (player_id pc) = Some 0"
    using at by blast
qed

text \<open>
  C1 as stated fails twice. A started game has 138 cards, not 150. And the count is not
  kept by a call with an index beyond the hand: \<^verbatim>\<open>revealCard(0, 12)\<close> on the started game
  writes a thirteenth element into the hand of player 0, after which the count is 139.
\<close>

theorem conservation_counterexample:
  "reachable_by any_slot ex_started \<and> card_count ex_started = 138
   \<and> (case handleInitFlip 0 12 ex_started of
        Inl e \<Rightarrow> False
      | Inr s' \<Rightarrow> reachable_by any_slot s' \<and> card_count s' = 139)"
proof -
  have r0: "reachable_by any_slot ex_started"
    unfolding ex_started_def by (rule reachable_by.started) simp_all
  obtain pc where pc: "player_at (players ex_started) 0 = Some pc" "length (cards pc) = 12"
      "revealTargets ex_started (player_id pc) = Some 0"
    using ex_started_facts(4) by blast
  obtain s' where s': "handleInitFlip 0 12 ex_started = Inr s'" "card_count s' = card_count ex_started + 1"
    using reveal_beyond_hand [of ex_started pc] pc ex_started_facts(1,2) by auto
  have "reachable_by any_slot s'"
    using reachable_by.revealed [of any_slot ex_started 12 0 s'] r0 s'(1)
    by (simp add: any_slot_def)
  then show ?thesis
    using r0 s' ex_started_facts(3) by simp
qed

lemma spread_id: "Hole \<notin> set a \<Longrightarrow> spread a = a"
  unfolding spread_def by (induction a) (auto split: slot.splits)

lemma arr_get_nth:
  "0 \<le> i \<Longrightarrow> i < int (length a) \<Longrightarrow> a ! nat i = Obj c \<Longrightarrow> arr_get a i = Obj c"
  by (auto simp: arr_get_def)

lemma arr_set_nth:
  "0 \<le> i \<Longrightarrow> i < int (length a) \<Longrightarrow> arr_set a i v = a[nat i := v]"
  by (auto simp: arr_set_def)

lemma js_rem_mod: "0 \<le> a \<Longrightarrow> js_rem a b = a mod b"
  by (simp add: js_rem_def)

lemma endTurn_next:
  assumes "player_at (players s) (currentPlayer s) = Some pl"
  shows "endTurn s =
           Inr (s\<lparr>drawnCard := None,
                  currentPlayer := (currentPlayer s + 1) mod int (length (players s))\<rparr>)"
proof -
  note p = player_at_Some [OF assms]
  have n: "players s \<noteq> []" using p by auto
  then have pos: "0 < int (length (players s))" by simp
  have r: "js_rem (currentPlayer s + 1) (int (length (players s)))
           = (currentPlayer s + 1) mod int (length (players s))"
    using p by (simp add: js_rem_mod)
  have "0 \<le> (currentPlayer s + 1) mod int (length (players s))"
    and "(currentPlayer s + 1) mod int (length (players s)) < int (length (players s))"
    using pos by simp_all
  then have "player_at (players s) ((currentPlayer s + 1) mod int (length (players s)))
             \<noteq> None"
    by (simp add: player_at_def)
  then show ?thesis
    using n r by (auto simp: endTurn_def Let_def)
qed

text \<open>
  C6. With a drawn card \<open>dc\<close>, an active player whose hand has its twelve elements, and a
  slot \<open>k\<close> from 0 to 11 that holds the card \<open>c\<close>, \<^verbatim>\<open>placeDrawnAt(k)\<close> puts \<open>dc\<close>, face up, into
  slot \<open>k\<close> of the active player's hand, appends \<open>c\<close> with its id and value, face up
  whatever its face was, to the discard pile, clears \<^verbatim>\<open>drawnCard\<close> and makes
  \<open>(currentPlayer + 1) mod\<close> the number of players the current player. Nothing else
  changes. The handler does not read the phase, so this holds in the play phase too.
\<close>

theorem placeDrawnAt_swap:
  assumes "drawnCard s = Some dc"
    and "player_at (players s) (currentPlayer s) = Some pl"
    and "length (cards pl) = 12" and "Hole \<notin> set (cards pl)"
    and "0 \<le> k" and "k < 12"
    and "cards pl ! nat k = Obj c"
  shows "placeDrawnAt k s =
           Inr (s\<lparr>players := (players s)
                     [nat (currentPlayer s) := pl\<lparr>cards := (cards pl)[nat k := Obj (dc\<lparr>faceUp := True\<rparr>)]\<rparr>],
                  discard := discard s @ [c\<lparr>faceUp := True\<rparr>],
                  drawnCard := None,
                  currentPlayer := (currentPlayer s + 1) mod int (length (players s))\<rparr>)"
proof -
  have sp: "spread (cards pl) = cards pl"
    using assms(4) by (rule spread_id)
  have g: "arr_get (cards pl) k = Obj c"
    using assms(3,5,6,7) by (simp add: arr_get_nth)
  have u: "arr_set (cards pl) k (Obj (dc\<lparr>faceUp := True\<rparr>)) = (cards pl)[nat k := Obj (dc\<lparr>faceUp := True\<rparr>)]"
    using assms(3,5,6) by (simp add: arr_set_nth)
  define t where "t = s\<lparr>players := (players s)
                     [nat (currentPlayer s) := pl\<lparr>cards := (cards pl)[nat k := Obj (dc\<lparr>faceUp := True\<rparr>)]\<rparr>],
                  discard := discard s @ [c\<lparr>faceUp := True\<rparr>]\<rparr>"
  note p = player_at_Some [OF assms(2)]
  have "player_at (players t) (currentPlayer t)
        = Some (pl\<lparr>cards := (cards pl)[nat k := Obj (dc\<lparr>faceUp := True\<rparr>)]\<rparr>)"
    using p by (simp add: t_def player_at_def)
  from endTurn_next [OF this]
  have e: "endTurn t = Inr (t\<lparr>drawnCard := None,
                  currentPlayer := (currentPlayer s + 1) mod int (length (players s))\<rparr>)"
    by (simp add: t_def)
  have "placeDrawnAt k s = endTurn t"
    using assms(1,2) sp g u by (simp add: placeDrawnAt_def t_def with_face_def)
  then show ?thesis
    unfolding e by (simp add: t_def)
qed

lemma discard_without_index:
  assumes "drawnCard s = Some dc"
    and "player_at (players s) (currentPlayer s) = Some pl"
  shows "discardDrawnAndFlip None s =
           Inr (s\<lparr>discard := discard s @ [dc\<lparr>faceUp := True\<rparr>],
                  drawnCard := None,
                  currentPlayer := (currentPlayer s + 1) mod int (length (players s))\<rparr>)"
proof -
  define s1 where "s1 = s\<lparr>discard := discard s @ [dc\<lparr>faceUp := True\<rparr>], drawnCard := None\<rparr>"
  have "player_at (players s1) (currentPlayer s1) = Some pl"
    using assms(2) by (simp add: s1_def)
  from endTurn_next [OF this] show ?thesis
    using assms(1) by (simp add: discardDrawnAndFlip_def s1_def)
qed

lemma face_up_again:
  assumes "a ! i = Obj c" and "faceUp c"
  shows "a[i := Obj (c\<lparr>faceUp := True\<rparr>)] = a"
proof -
  have "c\<lparr>faceUp := True\<rparr> = c" using assms(2) by simp
  then show ?thesis using assms(1) by (metis list_update_id)
qed

lemma discard_with_index:
  assumes "drawnCard s = Some dc"
    and "player_at (players s) (currentPlayer s) = Some pl"
    and "Hole \<notin> set (cards pl)"
    and k: "0 \<le> k" "k < int (length (cards pl))" and c: "cards pl ! nat k = Obj c"
  shows "discardDrawnAndFlip (Some k) s =
           Inr (s\<lparr>discard := discard s @ [dc\<lparr>faceUp := True\<rparr>],
                  drawnCard := None,
                  players := (players s)
                     [nat (currentPlayer s) := pl\<lparr>cards := (cards pl)[nat k := Obj (c\<lparr>faceUp := True\<rparr>)]\<rparr>],
                  currentPlayer := (currentPlayer s + 1) mod int (length (players s))\<rparr>)"
proof -
  have sp: "spread (cards pl) = cards pl"
    using assms(3) by (rule spread_id)
  have g: "arr_get (cards pl) k = Obj c"
    using k c by (simp add: arr_get_nth)
  have u: "arr_set (cards pl) k (Obj (c\<lparr>faceUp := True\<rparr>)) = (cards pl)[nat k := Obj (c\<lparr>faceUp := True\<rparr>)]"
    using k by (simp add: arr_set_nth)
  define t where "t = s\<lparr>discard := discard s @ [dc\<lparr>faceUp := True\<rparr>], drawnCard := None,
                  players := (players s)
                     [nat (currentPlayer s) := pl\<lparr>cards := (cards pl)[nat k := Obj (c\<lparr>faceUp := True\<rparr>)]\<rparr>]\<rparr>"
  note p = player_at_Some [OF assms(2)]
  have "player_at (players t) (currentPlayer t)
        = Some (pl\<lparr>cards := (cards pl)[nat k := Obj (c\<lparr>faceUp := True\<rparr>)]\<rparr>)"
    using p by (simp add: t_def player_at_def)
  from endTurn_next [OF this]
  have e: "endTurn t = Inr (t\<lparr>drawnCard := None,
                  currentPlayer := (currentPlayer s + 1) mod int (length (players s))\<rparr>)"
    by (simp add: t_def)
  have "discardDrawnAndFlip (Some k) s = endTurn t"
  proof (cases "faceUp c")
    case True
    with assms(1,2) sp g face_up_again [OF c True] show ?thesis
      by (simp add: discardDrawnAndFlip_def t_def Let_def)
  next
    case False
    with assms(1,2) sp g u show ?thesis
      by (simp add: discardDrawnAndFlip_def t_def Let_def)
  qed
  then show ?thesis
    unfolding e by (simp add: t_def)
qed

text \<open>
  C7 (as amended). With a drawn card \<open>dc\<close> and a valid active player, \<^verbatim>\<open>discardAndFlip\<close>
  called without an index, or with the index \<open>k\<close> of a slot of the active player's hand (0
  to 11 in a hand of twelve) that holds the card \<open>c\<close>, appends \<open>dc\<close>, face up, to the discard
  pile, clears \<^verbatim>\<open>drawnCard\<close> and passes the turn to the next player cyclically; with the
  index it also makes slot \<open>k\<close> face up, which for a card that is face up already leaves
  the hand as it is. Nothing else changes.
\<close>

theorem discardAndFlip_semantics:
  assumes "drawnCard s = Some dc"
    and "player_at (players s) (currentPlayer s) = Some pl"
    and "Hole \<notin> set (cards pl)"
  shows "discardDrawnAndFlip None s =
           Inr (s\<lparr>discard := discard s @ [dc\<lparr>faceUp := True\<rparr>],
                  drawnCard := None,
                  currentPlayer := (currentPlayer s + 1) mod int (length (players s))\<rparr>)
       \<and> (0 \<le> k \<and> k < int (length (cards pl)) \<and> cards pl ! nat k = Obj c \<longrightarrow>
            discardDrawnAndFlip (Some k) s =
              Inr (s\<lparr>discard := discard s @ [dc\<lparr>faceUp := True\<rparr>],
                     drawnCard := None,
                     players := (players s)
                        [nat (currentPlayer s) := pl\<lparr>cards := (cards pl)[nat k := Obj (c\<lparr>faceUp := True\<rparr>)]\<rparr>],
                     currentPlayer := (currentPlayer s + 1) mod int (length (players s))\<rparr>)
            \<and> (faceUp c \<longrightarrow> (cards pl)[nat k := Obj (c\<lparr>faceUp := True\<rparr>)] = cards pl))"
  using discard_without_index [OF assms(1,2)] discard_with_index [OF assms] face_up_again
  by blast


text \<open>
  The example games hold the cards of a deck: 138 of them, and in the play-phase example
  (the others differ from it in faces and in where the top card of the deck is) the
  values of the table.
\<close>

lemma cards_of_length [simp]: "length (cards_of k xs) = length xs"
  by (induction k xs rule: cards_of.induct) simp_all

lemma ex_counts:
  "card_count ex_one_revealed = 138" "card_count ex_last_reveal = 138"
  "card_count ex_play = 138" "card_count ex_drawn = 138"
  by (simp_all add: card_count_def ex_one_revealed_def ex_last_reveal_def ex_play_def ex_drawn_def
      ex_p0_one_def ex_p0_two_def ex_p1_none_def ex_p1_one_def ex_p1_two_def ex_player_def
      ex_deck_def ex_discard_def)

lemma ex_values:
  "mset (map card_value (deck ex_play) @ map card_value (discard ex_play)
         @ concat (map hand_values (players ex_play))) =
   mset (concat (map (\<lambda>(v, cnt). replicate cnt (Some v)) CARD_DISTRIBUTION))"
  by code_simp

lemma ex_players:
  "player_at [ex_p0_two, ex_p1_two] 1 = Some ex_p1_two"
  "player_at [ex_p0_two, ex_p1_one] 1 = Some ex_p1_one"
  "player_at [ex_p0_two, ex_p1_one] 0 = Some ex_p0_two"
  "player_at [ex_p0_one, ex_p1_none] 0 = Some ex_p0_one"
  by (simp_all add: player_at_def)

lemma ex_hands:
  "length (cards ex_p1_two) = 12" "Hole \<notin> set (cards ex_p1_two)"
  by (auto simp add: ex_p1_two_def ex_player_def)

text \<open>
  The theorem in the example game: player 1 holds the drawn 2 and places it at slot 3,
  over a face-down 2; the turn passes to player 0.
\<close>

theorem placeDrawnAt_swap_witness:
  "placeDrawnAt 3 ex_drawn =
     Inr (ex_drawn\<lparr>players :=
                     [ex_p0_two,
                      ex_p1_two\<lparr>cards := (cards ex_p1_two)[3 := Obj (ex_top\<lparr>faceUp := True\<rparr>)]\<rparr>],
                   discard :=
                     ex_discard @ [\<lparr>card_id = Some (uid (\<lambda>i. 0) 15), card_value = Some 2, faceUp = True\<rparr>],
                   drawnCard := None,
                   currentPlayer := 0\<rparr>)"
proof -
  have slot: "cards ex_p1_two ! nat 3
              = Obj \<lparr>card_id = Some (uid (\<lambda>i. 0) 15), card_value = Some 2, faceUp = False\<rparr>"
    by (simp add: ex_p1_two_def ex_player_def)
  have drawn: "drawnCard ex_drawn = Some (ex_top\<lparr>faceUp := True\<rparr>)"
    and active: "player_at (players ex_drawn) (currentPlayer ex_drawn) = Some ex_p1_two"
    by (simp_all add: ex_drawn_def ex_play_def ex_players)
  show ?thesis
    using placeDrawnAt_swap [OF drawn active ex_hands _ _ slot]
    by (simp add: ex_drawn_def ex_play_def)
qed

text \<open>
  The theorem in the example game, for a call without an index, a call for the face-down
  slot 2 and a call for slot 0, which is face up already.
\<close>

theorem discardAndFlip_semantics_witness:
  "discardDrawnAndFlip None ex_drawn =
     Inr (ex_drawn\<lparr>discard := ex_discard @ [ex_top\<lparr>faceUp := True\<rparr>],
                   drawnCard := None, currentPlayer := 0\<rparr>)
   \<and> discardDrawnAndFlip (Some 2) ex_drawn =
     Inr (ex_drawn\<lparr>discard := ex_discard @ [ex_top\<lparr>faceUp := True\<rparr>],
                   drawnCard := None,
                   players :=
                     [ex_p0_two,
                      ex_p1_two\<lparr>cards := (cards ex_p1_two)
                         [2 := Obj \<lparr>card_id = Some (uid (\<lambda>i. 0) 14), card_value = Some 1, faceUp = True\<rparr>]\<rparr>],
                   currentPlayer := 0\<rparr>)
   \<and> discardDrawnAndFlip (Some 0) ex_drawn =
     Inr (ex_drawn\<lparr>discard := ex_discard @ [ex_top\<lparr>faceUp := True\<rparr>],
                   drawnCard := None, currentPlayer := 0\<rparr>)"
proof -
  have slot2: "cards ex_p1_two ! nat 2
              = Obj \<lparr>card_id = Some (uid (\<lambda>i. 0) 14), card_value = Some 1, faceUp = False\<rparr>"
    and slot0: "cards ex_p1_two ! nat 0
              = Obj \<lparr>card_id = Some (uid (\<lambda>i. 0) 12), card_value = Some 0, faceUp = True\<rparr>"
    by (simp_all add: ex_p1_two_def ex_player_def)
  have drawn: "drawnCard ex_drawn = Some (ex_top\<lparr>faceUp := True\<rparr>)"
    and active: "player_at (players ex_drawn) (currentPlayer ex_drawn) = Some ex_p1_two"
    by (simp_all add: ex_drawn_def ex_play_def ex_players)
  note th = discardAndFlip_semantics [OF drawn active ex_hands(2)]
  have "[ex_p0_two, ex_p1_two][Suc 0 := ex_p1_two] = [ex_p0_two, ex_p1_two]"
    by simp
  then show ?thesis
    using th [of 2 "\<lparr>card_id = Some (uid (\<lambda>i. 0) 14), card_value = Some 1, faceUp = False\<rparr>"]
      th [of 0 "\<lparr>card_id = Some (uid (\<lambda>i. 0) 12), card_value = Some 0, faceUp = True\<rparr>"]
      slot2 slot0 ex_hands(1)
    by (simp add: ex_drawn_def ex_play_def)
qed

text \<open>
  C7 as stated fails for an index outside the hand: in the play phase, with the drawn 2
  in hand, \<^verbatim>\<open>discardAndFlip(12)\<close> finds \<^verbatim>\<open>cards[12]\<close> undefined, and reading its \<^verbatim>\<open>faceUp\<close>
  throws instead of discarding the drawn card and passing the turn.
\<close>

theorem discard_flip_out_of_range_counterexample:
  "phase ex_drawn = Play
   \<and> drawnCard ex_drawn = Some (ex_top\<lparr>faceUp := True\<rparr>)
   \<and> length (cards ex_p1_two) = 12
   \<and> player_at (players ex_drawn) (currentPlayer ex_drawn) = Some ex_p1_two
   \<and> discardDrawnAndFlip (Some 12) ex_drawn = Inl TypeError"
proof -
  have drawn: "drawnCard ex_drawn = Some (ex_top\<lparr>faceUp := True\<rparr>)"
    and active: "player_at (players ex_drawn) (currentPlayer ex_drawn) = Some ex_p1_two"
    and play: "phase ex_drawn = Play"
    by (simp_all add: ex_drawn_def ex_play_def ex_players)
  have beyond: "arr_get (spread (cards ex_p1_two)) 12 = Undefined"
    using ex_hands(1) by (simp add: arr_get_def)
  have "discardDrawnAndFlip (Some 12) ex_drawn = Inl TypeError"
    using drawn active beyond by (simp add: discardDrawnAndFlip_def)
  then show ?thesis
    using drawn active play ex_hands(1) by simp
qed

text \<open>
  C3 fails on the code. In the example player 0 has revealed slot 0 and nothing else;
  \<^verbatim>\<open>revealCard(0, 0)\<close> on that face-up card flips nothing, yet counts as the second
  reveal: the progress of player 0 becomes 2 and the turn passes to player 1.
\<close>

theorem reveal_face_up_again:
  "phase ex_one_revealed = Reveal \<and> currentPlayer ex_one_revealed = 0
   \<and> revealTargets ex_one_revealed 0 = Some 1
   \<and> arr_get (cards ex_p0_one) 0
       = Obj \<lparr>card_id = Some (uid (\<lambda>i. 0) 0), card_value = Some 5, faceUp = True\<rparr>
   \<and> handleInitFlip 0 0 ex_one_revealed
       = Inr (ex_one_revealed\<lparr>revealTargets := [0 \<mapsto> 2, 1 \<mapsto> 0], currentPlayer := 1\<rparr>)"
  by (auto simp add: handleInitFlip_def ex_one_revealed_def ex_p0_one_def ex_player_def player_at_def
        spread_def arr_get_def opt_faceUp_def Let_def fun_eq_iff)

lemma ex_sums:
  "visible_sums [ex_p0_two, ex_p1_one] = Inr [Num 8, Num 0]"
  "visible_sums [ex_p0_two, ex_p1_two] = Inr [Num 8, Num 12]"
  by (simp_all add: ex_p0_two_def ex_p1_one_def ex_p1_two_def ex_player_def sum_arr_def)

lemma ex_starters:
  "indexOf [Num 8, Num 0] (Math_max [Num 8, Num 0]) = 0"
  "indexOf [Num 8, Num 12] (Math_max [Num 8, Num 12]) = 1"
  by (simp_all add: indexOf_def Math_max_def strict_eq_def)

text \<open>
  The selection itself takes the first maximum: the sums 3, 9, 9, 1 give index 1.
\<close>

lemma starter_first_maximum:
  "indexOf [Num 3, Num 9, Num 9, Num 1] (Math_max [Num 3, Num 9, Num 9, Num 1]) = 1"
  by (simp add: indexOf_def Math_max_def strict_eq_def)

text \<open>
  C5 fails on the code. In the example player 0 shows 5 and 3, player 1 shows a 0 and
  reveals a 12 as the last card of the phase. The sums are taken from the hands before
  that flip, 8 and 0, so player 0 starts; in the state that results the sums are 8 and
  12, and their first maximum is at index 1.
\<close>

theorem starter_ignores_last_reveal:
  "handleInitFlip 1 1 ex_last_reveal = Inr (ex_play\<lparr>currentPlayer := 0\<rparr>)
   \<and> visible_sums (players ex_last_reveal) = Inr [Num 8, Num 0]
   \<and> visible_sums (players (ex_play\<lparr>currentPlayer := 0\<rparr>)) = Inr [Num 8, Num 12]
   \<and> indexOf [Num 8, Num 12] (Math_max [Num 8, Num 12]) = 1"
proof -
  have i: "player_id ex_p1_one = 1" by (simp add: ex_p1_one_def ex_player_def)
  have g: "arr_get (spread (cards ex_p1_one)) 1
           = Obj \<lparr>card_id = Some (uid (\<lambda>i. 0) 13), card_value = Some 12, faceUp = False\<rparr>"
    by (simp add: ex_p1_one_def ex_player_def spread_def arr_get_def)
  have u: "ex_p1_one\<lparr>cards := arr_set (spread (cards ex_p1_one)) 1
             (Obj \<lparr>card_id = Some (uid (\<lambda>i. 0) 13), card_value = Some 12, faceUp = True\<rparr>)\<rparr>
           = ex_p1_two"
    by (simp add: ex_p1_one_def ex_p1_two_def ex_player_def spread_def arr_set_def)
  have "handleInitFlip 1 1 ex_last_reveal = Inr (ex_play\<lparr>currentPlayer := 0\<rparr>)"
    by (auto simp add: handleInitFlip_def ex_last_reveal_def ex_play_def ex_players i g u ex_sums
        ex_starters with_face_def opt_faceUp_def Let_def fun_eq_iff simp del: visible_sums.simps)
  then show ?thesis
    using ex_sums ex_starters by (simp add: ex_last_reveal_def ex_play_def del: visible_sums.simps)
qed

lemma place_out_of_range:
  assumes "drawnCard s = Some dc"
    and "player_at (players s) (currentPlayer s) = Some pl"
    and "length (cards pl) = 12"
    and "k < 0 \<or> 12 \<le> k"
  shows "placeDrawnAt k s =
           Inr (s\<lparr>players := (players s)
                     [nat (currentPlayer s) :=
                        pl\<lparr>cards := arr_set (spread (cards pl)) k (Obj (dc\<lparr>faceUp := True\<rparr>))\<rparr>],
                  discard := discard s @ [\<lparr>card_id = None, card_value = None, faceUp = True\<rparr>],
                  drawnCard := None,
                  currentPlayer := (currentPlayer s + 1) mod int (length (players s))\<rparr>)"
proof -
  have g: "arr_get (spread (cards pl)) k = Undefined"
    using assms(3,4) by (auto simp: arr_get_def)
  define t where "t = s\<lparr>players := (players s)
                     [nat (currentPlayer s) :=
                        pl\<lparr>cards := arr_set (spread (cards pl)) k (Obj (dc\<lparr>faceUp := True\<rparr>))\<rparr>],
                  discard := discard s @ [\<lparr>card_id = None, card_value = None, faceUp = True\<rparr>]\<rparr>"
  note p = player_at_Some [OF assms(2)]
  have "player_at (players t) (currentPlayer t)
        = Some (pl\<lparr>cards := arr_set (spread (cards pl)) k (Obj (dc\<lparr>faceUp := True\<rparr>))\<rparr>)"
    using p by (simp add: t_def player_at_def)
  from endTurn_next [OF this]
  have e: "endTurn t = Inr (t\<lparr>drawnCard := None,
                  currentPlayer := (currentPlayer s + 1) mod int (length (players s))\<rparr>)"
    by (simp add: t_def)
  have "placeDrawnAt k s = endTurn t"
    using assms(1,2) g by (simp add: placeDrawnAt_def t_def with_face_def)
  then show ?thesis
    unfolding e by (simp add: t_def)
qed

text \<open>
  C4 (as amended). In the play phase with no drawn card, \<^verbatim>\<open>drawFromDeck\<close> on an empty deck
  and \<^verbatim>\<open>takeFromDiscard\<close> on an empty discard pile leave the state as it is.
  \<^verbatim>\<open>placeDrawnAt\<close> with a drawn card and a slot index outside 0, ..., 11 is no such case:
  it returns another state, in which \<^verbatim>\<open>drawnCard\<close> is cleared, a face-up entry without id
  and value is on top of the discard pile and the turn has passed to the next player.
\<close>

theorem invalid_input_cases:
  "(phase s = Play \<and> drawnCard s = None \<and> deck s = [] \<longrightarrow> drawFromDeck s = Inr s)
   \<and> (phase s = Play \<and> drawnCard s = None \<and> discard s = [] \<longrightarrow> takeFromDiscard s = Inr s)
   \<and> (drawnCard s = Some dc \<and> player_at (players s) (currentPlayer s) = Some pl
        \<and> length (cards pl) = 12 \<and> (k < 0 \<or> 12 \<le> k) \<longrightarrow>
        (\<exists>s'. placeDrawnAt k s = Inr s' \<and> s' \<noteq> s
           \<and> drawnCard s' = None
           \<and> discard s' = discard s @ [\<lparr>card_id = None, card_value = None, faceUp = True\<rparr>]
           \<and> currentPlayer s' = (currentPlayer s + 1) mod int (length (players s))))"
proof (intro conjI impI)
  assume "phase s = Play \<and> drawnCard s = None \<and> deck s = []"
  then show "drawFromDeck s = Inr s" by (simp add: drawFromDeck_def)
next
  assume "phase s = Play \<and> drawnCard s = None \<and> discard s = []"
  then show "takeFromDiscard s = Inr s" by (simp add: takeFromDiscard_def)
next
  assume a: "drawnCard s = Some dc \<and> player_at (players s) (currentPlayer s) = Some pl
        \<and> length (cards pl) = 12 \<and> (k < 0 \<or> 12 \<le> k)"
  define s' where "s' = s\<lparr>players := (players s)
                     [nat (currentPlayer s) :=
                        pl\<lparr>cards := arr_set (spread (cards pl)) k (Obj (dc\<lparr>faceUp := True\<rparr>))\<rparr>],
                  discard := discard s @ [\<lparr>card_id = None, card_value = None, faceUp = True\<rparr>],
                  drawnCard := None,
                  currentPlayer := (currentPlayer s + 1) mod int (length (players s))\<rparr>"
  have r: "placeDrawnAt k s = Inr s'"
    using a place_out_of_range [of s dc pl k] by (simp add: s'_def)
  have "drawnCard s' \<noteq> drawnCard s"
    using a by (simp add: s'_def)
  then have "s' \<noteq> s" by auto
  then show "\<exists>s'. placeDrawnAt k s = Inr s' \<and> s' \<noteq> s
           \<and> drawnCard s' = None
           \<and> discard s' = discard s @ [\<lparr>card_id = None, card_value = None, faceUp = True\<rparr>]
           \<and> currentPlayer s' = (currentPlayer s + 1) mod int (length (players s))"
    using r by (auto simp: s'_def)
qed

text \<open>
  The theorem in the example games with an empty deck, with an empty discard pile, and
  with a drawn card and slot index 12.
\<close>

theorem invalid_input_cases_witness:
  "drawFromDeck ex_no_deck = Inr ex_no_deck
   \<and> takeFromDiscard ex_no_discard = Inr ex_no_discard
   \<and> (\<exists>s'. placeDrawnAt 12 ex_drawn = Inr s' \<and> s' \<noteq> ex_drawn
         \<and> drawnCard s' = None
         \<and> discard s' = ex_discard @ [\<lparr>card_id = None, card_value = None, faceUp = True\<rparr>]
         \<and> currentPlayer s' = 0)"
  using invalid_input_cases [of ex_no_deck] invalid_input_cases [of ex_no_discard]
    invalid_input_cases [of ex_drawn "ex_top\<lparr>faceUp := True\<rparr>" ex_p1_two 12]
  by (simp add: ex_no_deck_def ex_no_discard_def ex_drawn_def ex_play_def ex_players ex_hands)

text \<open>
  C4 as stated fails in its third case: with the drawn 2 in hand, \<^verbatim>\<open>placeDrawnAt(12)\<close>
  makes the drawn card a thirteenth element of the hand of player 1, pushes an entry
  without id and value onto the discard pile and passes the turn to player 0.
\<close>

theorem place_out_of_range_counterexample:
  "drawnCard ex_drawn = Some (ex_top\<lparr>faceUp := True\<rparr>)
   \<and> placeDrawnAt 12 ex_drawn =
       Inr (ex_drawn\<lparr>players :=
                       [ex_p0_two,
                        ex_p1_two\<lparr>cards := cards ex_p1_two @ [Obj (ex_top\<lparr>faceUp := True\<rparr>)]\<rparr>],
                     discard := ex_discard @ [\<lparr>card_id = None, card_value = None, faceUp = True\<rparr>],
                     drawnCard := None,
                     currentPlayer := 0\<rparr>)
   \<and> placeDrawnAt 12 ex_drawn \<noteq> Inr ex_drawn"
proof -
  have drawn: "drawnCard ex_drawn = Some (ex_top\<lparr>faceUp := True\<rparr>)"
    and active: "player_at (players ex_drawn) (currentPlayer ex_drawn) = Some ex_p1_two"
    by (simp_all add: ex_drawn_def ex_play_def ex_players)
  have grown: "arr_set (spread (cards ex_p1_two)) 12 (Obj (ex_top\<lparr>faceUp := True\<rparr>))
               = cards ex_p1_two @ [Obj (ex_top\<lparr>faceUp := True\<rparr>)]"
    using ex_hands by (simp add: arr_set_def spread_id)
  define s' where
    "s' = ex_drawn\<lparr>players :=
                       [ex_p0_two,
                        ex_p1_two\<lparr>cards := cards ex_p1_two @ [Obj (ex_top\<lparr>faceUp := True\<rparr>)]\<rparr>],
                     discard := ex_discard @ [\<lparr>card_id = None, card_value = None, faceUp = True\<rparr>],
                     drawnCard := None,
                     currentPlayer := 0\<rparr>"
  have r: "placeDrawnAt 12 ex_drawn = Inr s'"
    using place_out_of_range [OF drawn active ex_hands(1), of 12] grown
    by (simp add: s'_def ex_drawn_def ex_play_def)
  have "drawnCard s' = None"
    by (simp add: s'_def)
  then have "s' \<noteq> ex_drawn"
    using drawn by auto
  then show ?thesis
    using r drawn unfolding s'_def by simp
qed


text \<open>
  C8. In the reveal phase \<^verbatim>\<open>revealCard\<close> returns the state unchanged when the player index
  is not the current player's, and when it is and that player's reveal count is 2.
\<close>

theorem reveal_gating:
  assumes "phase s = Reveal"
    and "pIndex \<noteq> currentPlayer s
         \<or> (player_at (players s) pIndex = Some pc \<and> revealTargets s (player_id pc) = Some 2)"
  shows "handleInitFlip pIndex cIndex s = Inr s"
proof (cases "pIndex = currentPlayer s")
  case False
  then show ?thesis using assms(1) by (simp add: handleInitFlip_def)
next
  case True
  then have "player_at (players s) pIndex = Some pc" and "revealTargets s (player_id pc) = Some 2"
    using assms(2) by simp_all
  then show ?thesis
    using assms(1) True by (simp add: handleInitFlip_def)
qed

text \<open>
  The theorem in the example game: a call for player 0 while player 1 is to move, and a
  call for player 0, whose count is 2, made the current player.
\<close>

theorem reveal_gating_witness:
  "handleInitFlip 0 2 ex_last_reveal = Inr ex_last_reveal
   \<and> handleInitFlip 0 2 (ex_last_reveal\<lparr>currentPlayer := 0\<rparr>) = Inr (ex_last_reveal\<lparr>currentPlayer := 0\<rparr>)"
proof -
  have i: "player_id ex_p0_two = 0" by (simp add: ex_p0_two_def ex_player_def)
  show ?thesis
    using reveal_gating [of ex_last_reveal 0 ex_p0_two 2]
      reveal_gating [of "ex_last_reveal\<lparr>currentPlayer := 0\<rparr>" 0 ex_p0_two 2]
    by (simp add: ex_last_reveal_def ex_players i)
qed

text \<open>
  C9. In the play phase with no drawn card, a discard pile whose top card is face up and
  a valid current player, \<^verbatim>\<open>takeFromDiscard\<close> followed by \<^verbatim>\<open>discardAndFlip\<close> without an index
  returns the state it started from with the turn passed to the next player: the
  discard pile, the deck, every hand and all else are as before.
\<close>

theorem take_then_discard_roundtrip:
  assumes "phase s = Play" and "drawnCard s = None"
    and "discard s \<noteq> []" and "faceUp (last (discard s))"
    and "player_at (players s) (currentPlayer s) = Some pl"
  shows "and_then (takeFromDiscard s) (discardDrawnAndFlip None)
         = Inr (s\<lparr>currentPlayer := (currentPlayer s + 1) mod int (length (players s))\<rparr>)"
proof -
  define s1 where "s1 = s\<lparr>discard := butlast (discard s), drawnCard := Some (last (discard s))\<rparr>"
  have t: "takeFromDiscard s = Inr s1"
    using assms(1,2,3,5) by (simp add: takeFromDiscard_def s1_def)
  have "drawnCard s1 = Some (last (discard s))"
    and "player_at (players s1) (currentPlayer s1) = Some pl"
    using assms(5) by (simp_all add: s1_def)
  from discard_without_index [OF this]
  have d: "discardDrawnAndFlip None s1 =
           Inr (s1\<lparr>discard := discard s1 @ [(last (discard s))\<lparr>faceUp := True\<rparr>],
                   drawnCard := None,
                   currentPlayer := (currentPlayer s1 + 1) mod int (length (players s1))\<rparr>)" .
  have "(last (discard s))\<lparr>faceUp := True\<rparr> = last (discard s)"
    using assms(4) by simp
  then have "butlast (discard s) @ [(last (discard s))\<lparr>faceUp := True\<rparr>] = discard s"
    using assms(3) by simp
  then have "discardDrawnAndFlip None s1
             = Inr (s\<lparr>currentPlayer := (currentPlayer s + 1) mod int (length (players s))\<rparr>)"
    unfolding d using assms(2) by (simp add: s1_def)
  then show ?thesis
    by (simp add: and_then_def t)
qed

text \<open>
  The theorem in the example game: the turn passes from player 1 to player 0.
\<close>

theorem take_then_discard_roundtrip_witness:
  "and_then (takeFromDiscard ex_play) (discardDrawnAndFlip None) = Inr (ex_play\<lparr>currentPlayer := 0\<rparr>)"
  using take_then_discard_roundtrip [of ex_play ex_p1_two]
  by (simp add: ex_play_def ex_players ex_discard_def)

text \<open>
  C10. In the play phase with no drawn card and a valid current player, \<^verbatim>\<open>drawFromDeck\<close>
  on a deck that is not empty removes the deck's top card and makes it, face up, the
  drawn card; \<^verbatim>\<open>takeFromDiscard\<close> on a discard pile that is not empty removes its top
  card and makes it the drawn card. The hands, the phase, the current player and every
  other part of the state are those of the state before.
\<close>

theorem acquisition_frame:
  assumes "phase s = Play" and "drawnCard s = None"
    and "player_at (players s) (currentPlayer s) = Some pl"
  shows "(deck s \<noteq> [] \<longrightarrow>
            drawFromDeck s =
              Inr (s\<lparr>deck := butlast (deck s),
                     drawnCard := Some ((last (deck s))\<lparr>faceUp := True\<rparr>)\<rparr>))
       \<and> (discard s \<noteq> [] \<longrightarrow>
            takeFromDiscard s =
              Inr (s\<lparr>discard := butlast (discard s), drawnCard := Some (last (discard s))\<rparr>))"
  using assms by (simp add: drawFromDeck_def takeFromDiscard_def)

text \<open>
  The theorem in the example game: drawing gives the example with the drawn 2, taking
  gives the 10 of the discard pile.
\<close>

theorem acquisition_frame_witness:
  "drawFromDeck ex_play = Inr ex_drawn
   \<and> takeFromDiscard ex_play
       = Inr (ex_play\<lparr>discard := [],
                      drawnCard := Some \<lparr>card_id = Some (uid (\<lambda>i. 0) 24), card_value = Some 10, faceUp = True\<rparr>\<rparr>)"
  using acquisition_frame [of ex_play ex_p1_two]
  by (simp add: ex_drawn_def ex_play_def ex_players ex_discard_def)

end
